theory Spec2Isabelle
  imports Complex_Main "HOL-Library.Word"
begin

section \<open>The live crime report composer (component \<open>LiveCrimeReport\<close>)\<close>

text \<open>
  The component keeps six React state variables and reacts to user and device events.
  Every handler of the source is a function from the state before the event to the state
  after it.  What a handler does to the outside world (requests, notifications, the
  \<open>onSubmit\<close> callback, calls on the recorder) is appended to \<open>trace\<close>, in program order.
  What the outside world answers (the device, the two endpoints) is an argument of the
  handler.
\<close>

subsection \<open>Data\<close>

type_synonym byte = "8 word"

text \<open>A \<open>Blob\<close>: its bytes and its MIME type.  A \<open>File\<close> is a blob with a name.\<close>

record Blob =
  payload :: "byte list"
  mime :: string

record File = Blob +
  name :: string

definition size_Blob :: "'a Blob_scheme \<Rightarrow> nat" where
  "size_Blob b = length (payload b)"

text \<open>\<open>new Blob(parts, {type})\<close>: the parts' bytes, in the order of the array.\<close>

definition new_Blob :: "'a Blob_scheme list \<Rightarrow> string \<Rightarrow> Blob" where
  "new_Blob parts t = \<lparr> payload = concat (map payload parts), mime = t \<rparr>"

text \<open>\<open>new File(parts, name, {type})\<close>.\<close>

definition new_File :: "'a Blob_scheme list \<Rightarrow> string \<Rightarrow> string \<Rightarrow> File" where
  "new_File parts n t = \<lparr> payload = concat (map payload parts), mime = t, name = n \<rparr>"

record Location =
  latitude :: real
  longitude :: real
  address :: string

datatype crime_type = ROBBERY | FRAUD | CYBERCRIME | SCAM | IMPERSONATION | OTHER

text \<open>The enum's members are the strings of \<open>z.enum\<close>; the template literal prints them.\<close>

fun crime_type_string :: "crime_type \<Rightarrow> string" where
  "crime_type_string ROBBERY = ''ROBBERY''"
| "crime_type_string FRAUD = ''FRAUD''"
| "crime_type_string CYBERCRIME = ''CYBERCRIME''"
| "crime_type_string SCAM = ''SCAM''"
| "crime_type_string IMPERSONATION = ''IMPERSONATION''"
| "crime_type_string OTHER = ''OTHER''"

record CrimeReportFormData =
  crimeType :: crime_type
  description :: string
  inProgress :: bool
  emergencyContacts :: "string list option"

text \<open>\<open>crimeReportSchema\<close>: the enum and the boolean are types here; what is left to check
  is the minimum length of the description.\<close>

definition crimeReportSchema :: "CrimeReportFormData \<Rightarrow> bool" where
  "crimeReportSchema d = (20 \<le> length (description d))"

text \<open>\<open>crimeDetails\<close> is \<open>{...data, location, evidenceUrls}\<close>: the form's fields and two more.\<close>

record crimeDetails = CrimeReportFormData +
  cd_location :: Location
  evidenceUrls :: "string list"

record reportData =
  rd_type :: string
  subject :: string
  rd_description :: string
  priority :: string
  rd_crimeDetails :: crimeDetails

text \<open>A recorder object, known by a number; each call of the constructor gives a new one.\<close>

datatype MediaRecorder = MediaRecorder nat

text \<open>What a rejected promise or a \<open>throw\<close> carries: a plain \<open>Error\<close> with its message, or
  an axios error with \<open>response?.data?.message\<close> when the server sent one.\<close>

datatype js_error = Error string | AxiosError "string option"

type_synonym ticket = string

datatype effect =
    Toast_error string
  | Toast_success string
  | Post_upload_evidence "File list"
  | Post_tickets reportData
  | OnSubmit
  | Recorder_start MediaRecorder
  | Recorder_stop MediaRecorder
  | Get_reverse_geocode real real

record composer =
  location :: "Location option"
  isLoadingLocation :: bool
  evidenceFiles :: "File list"
  isRecording :: bool
  mediaRecorder :: "MediaRecorder option"
  audioChunks :: "Blob list"
  trace :: "effect list"

text \<open>The \<open>useState\<close> initial values; nothing has happened yet.\<close>

definition initial :: composer where
  "initial = \<lparr> location = None, isLoadingLocation = False, evidenceFiles = [],
     isRecording = False, mediaRecorder = None, audioChunks = [], trace = [] \<rparr>"

definition emit :: "effect \<Rightarrow> composer \<Rightarrow> composer" where
  "emit e c = c\<lparr> trace := trace c @ [e] \<rparr>"

text \<open>The effects between an earlier state and a later one.\<close>

definition emitted :: "composer \<Rightarrow> composer \<Rightarrow> effect list" where
  "emitted c c' = drop (length (trace c)) (trace c')"

text \<open>The two endpoints, as the answers they give to a request.\<close>

record backend =
  upload_evidence :: "File list \<Rightarrow> js_error + string list"
  tickets :: "reportData \<Rightarrow> js_error + ticket"

subsection \<open>Location\<close>

datatype geo_outcome =
    Position_failed
  | Geocode_failed real real
  | Geocode_ok real real string

text \<open>\<open>getCurrentLocation\<close>: the loading flag is raised, then lowered in \<open>finally\<close>.\<close>

definition getCurrentLocation :: "geo_outcome \<Rightarrow> composer \<Rightarrow> composer" where
  "getCurrentLocation out c =
     (let c1 = c\<lparr> isLoadingLocation := True \<rparr>;
          c2 = (case out of
                  Position_failed \<Rightarrow>
                    emit (Toast_error ''Failed to get your location. Please enable location services.'') c1
                | Geocode_failed lat lon \<Rightarrow>
                    emit (Toast_error ''Failed to get your location. Please enable location services.'')
                      (emit (Get_reverse_geocode lat lon) c1)
                | Geocode_ok lat lon a \<Rightarrow>
                    (emit (Get_reverse_geocode lat lon) c1)
                      \<lparr> location := Some \<lparr> latitude = lat, longitude = lon, address = a \<rparr> \<rparr>)
      in c2\<lparr> isLoadingLocation := False \<rparr>)"

subsection \<open>Recording\<close>

text \<open>\<open>startRecording\<close>: the argument is what \<open>getUserMedia\<close> and the \<open>MediaRecorder\<close>
  constructor gave, a recorder or the error they threw.\<close>

definition startRecording :: "js_error + MediaRecorder \<Rightarrow> composer \<Rightarrow> composer" where
  "startRecording got c =
     (case got of
        Inl e \<Rightarrow> emit (Toast_error ''Failed to start audio recording'') c
      | Inr recorder \<Rightarrow>
          (emit (Recorder_start recorder) c)
            \<lparr> mediaRecorder := Some recorder, isRecording := True \<rparr>)"

text \<open>The recorder's \<open>ondataavailable\<close> handler, for the event's \<open>data\<close>.\<close>

definition ondataavailable :: "Blob \<Rightarrow> composer \<Rightarrow> composer" where
  "ondataavailable d c =
     (if size_Blob d > 0 then c\<lparr> audioChunks := audioChunks c @ [d] \<rparr> else c)"

text \<open>\<open>stopRecording\<close>: the handler bound to the button is the one of the last render, so
  the \<open>audioChunks\<close> it reads is the buffer of the state it runs in.  The call of
  \<open>stop()\<close> goes to the trace; what the recorder does after it is the browser's part and
  reaches the component only through \<open>ondataavailable\<close>.\<close>

definition stopRecording :: "composer \<Rightarrow> composer" where
  "stopRecording c =
     (case mediaRecorder c of
        None \<Rightarrow> c
      | Some recorder \<Rightarrow>
          (let c1 = emit (Recorder_stop recorder) c;
               c2 = c1\<lparr> isRecording := False \<rparr>;
               audioBlob = new_Blob (audioChunks c) ''audio/webm'';
               audioFile = new_File [audioBlob] ''audio-evidence.webm'' ''audio/webm'';
               c3 = c2\<lparr> evidenceFiles := evidenceFiles c2 @ [audioFile] \<rparr>
           in c3\<lparr> audioChunks := [] \<rparr>))"

subsection \<open>Evidence files\<close>

text \<open>\<open>Array.prototype.filter\<close> with the element's index as the second argument.\<close>

fun filter_from :: "('a \<Rightarrow> int \<Rightarrow> bool) \<Rightarrow> int \<Rightarrow> 'a list \<Rightarrow> 'a list" where
  "filter_from p i [] = []"
| "filter_from p i (x # xs) =
     (if p x i then x # filter_from p (i + 1) xs else filter_from p (i + 1) xs)"

definition Array_filter :: "('a \<Rightarrow> int \<Rightarrow> bool) \<Rightarrow> 'a list \<Rightarrow> 'a list" where
  "Array_filter p xs = filter_from p 0 xs"

text \<open>\<open>handleFileChange\<close>: \<open>e.target.files\<close> is a list of files or \<open>null\<close>.\<close>

definition handleFileChange :: "File list option \<Rightarrow> composer \<Rightarrow> composer" where
  "handleFileChange target_files c =
     (case target_files of
        None \<Rightarrow> c
      | Some files \<Rightarrow> c\<lparr> evidenceFiles := evidenceFiles c @ files \<rparr>)"

definition removeFile :: "int \<Rightarrow> composer \<Rightarrow> composer" where
  "removeFile index c =
     c\<lparr> evidenceFiles := Array_filter (\<lambda>_ i. i \<noteq> index) (evidenceFiles c) \<rparr>"

subsection \<open>Submission\<close>

text \<open>\<open>uploadEvidenceMutation\<close>: one request carrying the files in the order of the array;
  its value is \<open>response.data.urls\<close>.\<close>

definition uploadEvidenceMutation ::
  "backend \<Rightarrow> File list \<Rightarrow> composer \<Rightarrow> (js_error + string list) \<times> composer" where
  "uploadEvidenceMutation be files c =
     (upload_evidence be files, emit (Post_upload_evidence files) c)"

definition make_reportData :: "CrimeReportFormData \<Rightarrow> Location \<Rightarrow> string list \<Rightarrow> reportData" where
  "make_reportData d loc urls =
     \<lparr> rd_type = ''LIVE_CRIME'',
       subject = ''Live Crime Report: '' @ crime_type_string (crimeType d),
       rd_description = description d,
       priority = ''HIGH'',
       rd_crimeDetails =
         \<lparr> crimeType = crimeType d, description = description d, inProgress = inProgress d,
           emergencyContacts = emergencyContacts d, cd_location = loc, evidenceUrls = urls \<rparr> \<rparr>"

text \<open>The mutation function of \<open>submitCrimeReport\<close>: a \<open>throw\<close> and a rejected request
  both end it with \<open>Inl\<close>.\<close>

definition submit_mutationFn ::
  "backend \<Rightarrow> CrimeReportFormData \<Rightarrow> composer \<Rightarrow> (js_error + ticket) \<times> composer" where
  "submit_mutationFn be d c =
     (case location c of
        None \<Rightarrow> (Inl (Error ''Location is required''), c)
      | Some loc \<Rightarrow>
          (case (if length (evidenceFiles c) > 0
                 then uploadEvidenceMutation be (evidenceFiles c) c
                 else (Inr [], c)) of
             (Inl e, c1) \<Rightarrow> (Inl e, c1)
           | (Inr urls, c1) \<Rightarrow>
               (let rd = make_reportData d loc urls
                in (tickets be rd, emit (Post_tickets rd) c1))))"

definition onSuccess :: "composer \<Rightarrow> composer" where
  "onSuccess c = emit OnSubmit (emit (Toast_success ''Crime report submitted successfully'') c)"

text \<open>\<open>error.response?.data?.message || 'Failed to submit crime report'\<close>: an empty message
  is falsy too.\<close>

definition error_message :: "js_error \<Rightarrow> string" where
  "error_message e =
     (case e of
        Error _ \<Rightarrow> ''Failed to submit crime report''
      | AxiosError None \<Rightarrow> ''Failed to submit crime report''
      | AxiosError (Some m) \<Rightarrow> (if m = [] then ''Failed to submit crime report'' else m))"

definition onError :: "js_error \<Rightarrow> composer \<Rightarrow> composer" where
  "onError e c = emit (Toast_error (error_message e)) c"

definition submitCrimeReport ::
  "backend \<Rightarrow> CrimeReportFormData \<Rightarrow> composer \<Rightarrow> (js_error + ticket) \<times> composer" where
  "submitCrimeReport be d c =
     (case submit_mutationFn be d c of
        (Inl e, c1) \<Rightarrow> (Inl e, onError e c1)
      | (Inr t, c1) \<Rightarrow> (Inr t, onSuccess c1))"

subsection \<open>Reading the trace\<close>

fun is_tickets_call :: "effect \<Rightarrow> bool" where
  "is_tickets_call (Post_tickets _) = True"
| "is_tickets_call _ = False"

fun is_network_call :: "effect \<Rightarrow> bool" where
  "is_network_call (Post_upload_evidence _) = True"
| "is_network_call (Post_tickets _) = True"
| "is_network_call (Get_reverse_geocode _ _) = True"
| "is_network_call _ = False"

subsection \<open>Sequences of events\<close>

text \<open>The recorder's chunks, handed to the handler one event after the other.\<close>

definition deliver :: "Blob list \<Rightarrow> composer \<Rightarrow> composer" where
  "deliver ds c = foldl (\<lambda>c d. ondataavailable d c) c ds"

text \<open>One recording session: the recorder starts, the chunks \<open>ds\<close> arrive in this order,
  the user stops.\<close>

definition recording_session :: "MediaRecorder \<Rightarrow> Blob list \<Rightarrow> composer \<Rightarrow> composer" where
  "recording_session r ds c = stopRecording (deliver ds (startRecording (Inr r) c))"

text \<open>The two operations on the evidence collection, as the user triggers them.\<close>

datatype evidence_op = AddFiles "File list" | RemoveEvidence int

fun apply_op :: "evidence_op \<Rightarrow> composer \<Rightarrow> composer" where
  "apply_op (AddFiles files) c = handleFileChange (Some files) c"
| "apply_op (RemoveEvidence index) c = removeFile index c"

definition run_ops :: "evidence_op list \<Rightarrow> composer \<Rightarrow> composer" where
  "run_ops ops c = foldl (\<lambda>c op. apply_op op c) c ops"

subsection \<open>What the collection should be, by positions\<close>

text \<open>Removing the element at one position; the later elements move down by one.\<close>

definition remove_at :: "nat \<Rightarrow> 'a list \<Rightarrow> 'a list" where
  "remove_at i xs = take i xs @ drop (Suc i) xs"

text \<open>Every item ever added, in the order of addition.\<close>

fun added_items :: "evidence_op \<Rightarrow> File list" where
  "added_items (AddFiles files) = files"
| "added_items (RemoveEvidence _) = []"

definition added :: "evidence_op list \<Rightarrow> File list" where
  "added ops = concat (map added_items ops)"

text \<open>The removals whose index is inside the collection at the moment of the call.\<close>

fun in_range_removals :: "evidence_op list \<Rightarrow> composer \<Rightarrow> nat" where
  "in_range_removals [] c = 0"
| "in_range_removals (AddFiles files # ops) c = in_range_removals ops (apply_op (AddFiles files) c)"
| "in_range_removals (RemoveEvidence index # ops) c =
     (if 0 \<le> index \<and> index < int (length (evidenceFiles c)) then 1 else 0)
       + in_range_removals ops (apply_op (RemoveEvidence index) c)"

text \<open>A ledger over the positions of \<open>added\<close>: which of them are still in the collection
  (in order), and which have been removed.  An item gets the next free position when it is
  added; a removal at an index inside the collection strikes the position standing there.\<close>

record ledger =
  survivors :: "nat list"
  removed :: "nat list"
  additions :: nat

fun ledger_step :: "ledger \<Rightarrow> evidence_op \<Rightarrow> ledger" where
  "ledger_step l (AddFiles files) =
     l\<lparr> survivors := survivors l @ [additions l ..< additions l + length files],
        additions := additions l + length files \<rparr>"
| "ledger_step l (RemoveEvidence index) =
     (if 0 \<le> index \<and> index < int (length (survivors l))
      then l\<lparr> survivors := remove_at (nat index) (survivors l),
              removed := removed l @ [survivors l ! nat index] \<rparr>
      else l)"

definition ledger_of :: "evidence_op list \<Rightarrow> ledger" where
  "ledger_of ops = foldl ledger_step \<lparr> survivors = [], removed = [], additions = 0 \<rparr> ops"

subsection \<open>Sample values\<close>

definition receipt_jpg :: File where
  "receipt_jpg = \<lparr> payload = [0xFF, 0xD8, 0xFF], mime = ''image/jpeg'', name = ''receipt.jpg'' \<rparr>"

definition photo_png :: File where
  "photo_png = \<lparr> payload = [0x89, 0x50], mime = ''image/png'', name = ''photo.png'' \<rparr>"

definition clip_mp4 :: File where
  "clip_mp4 = \<lparr> payload = [0x00, 0x00, 0x18], mime = ''video/mp4'', name = ''clip.mp4'' \<rparr>"

definition chunk_a :: Blob where
  "chunk_a = \<lparr> payload = [1, 2], mime = ''audio/webm'' \<rparr>"

definition chunk_b :: Blob where
  "chunk_b = \<lparr> payload = [3], mime = ''audio/webm'' \<rparr>"

definition chunk_c :: Blob where
  "chunk_c = \<lparr> payload = [4, 5, 6], mime = ''audio/webm'' \<rparr>"

definition lagos :: Location where
  "lagos = \<lparr> latitude = 6.5244, longitude = 3.3792, address = ''Lagos, Nigeria'' \<rparr>"

definition fraud_report :: CrimeReportFormData where
  "fraud_report =
     \<lparr> crimeType = FRAUD,
       description = ''Someone attempted to withdraw funds from my account using a cloned card at an ATM on Example Street'',
       inProgress = True,
       emergencyContacts = None \<rparr>"

text \<open>A backend that stores every file and accepts every report, and one whose upload
  endpoint is down.\<close>

definition accepting :: backend where
  "accepting =
     \<lparr> upload_evidence = (\<lambda>files. Inr (map (\<lambda>f. ''/evidence/'' @ name f) files)),
       tickets = (\<lambda>rd. Inr ''T-1'') \<rparr>"

definition upload_down :: backend where
  "upload_down =
     \<lparr> upload_evidence = (\<lambda>files. Inl (AxiosError (Some ''Upload failed''))),
       tickets = (\<lambda>rd. Inr ''T-1'') \<rparr>"

text \<open>The composer after the location has resolved and one file has been attached.\<close>

definition ready :: composer where
  "ready = handleFileChange (Some [receipt_jpg])
             (getCurrentLocation (Geocode_ok 6.5244 3.3792 ''Lagos, Nigeria'') initial)"

text \<open>The same composer while a recording is running and one chunk has arrived.\<close>

definition ready_recording :: composer where
  "ready_recording = deliver [chunk_a] (startRecording (Inr (MediaRecorder 1)) ready)"

text \<open>Two files attached, the first removed, a third attached, a removal at an index that
  is not there, and a removal of the last item.\<close>

definition sample_ops :: "evidence_op list" where
  "sample_ops = [AddFiles [receipt_jpg, photo_png], RemoveEvidence 0, AddFiles [clip_mp4],
      RemoveEvidence 7, RemoveEvidence 1]"

section \<open>Properties\<close>

subsection \<open>Removing by index\<close>

lemma filter_from_remove:
  "filter_from (\<lambda>_ i. i \<noteq> k) j xs =
     (if j \<le> k \<and> k < j + int (length xs) then remove_at (nat (k - j)) xs else xs)"
proof (induction xs arbitrary: j)
  case Nil
  then show ?case by (simp add: remove_at_def)
next
  case (Cons x xs)
  note IH = Cons.IH [of "j + 1"]
  consider (here) "j = k" | (later) "j < k" "k < j + 1 + int (length xs)"
    | (outside) "k < j \<or> j + 1 + int (length xs) \<le> k"
    by linarith
  then show ?case
  proof cases
    case here
    then show ?thesis using IH by (simp add: remove_at_def)
  next
    case later
    then have n: "nat (k - j) = Suc (nat (k - (j + 1)))" by linarith
    from later have "filter_from (\<lambda>_ i. i \<noteq> k) j (x # xs) = x # remove_at (nat (k - (j + 1))) xs"
      using IH by simp
    also have "\<dots> = remove_at (nat (k - j)) (x # xs)"
      unfolding n by (simp add: remove_at_def)
    finally show ?thesis using later by simp
  next
    case outside
    then have "filter_from (\<lambda>_ i. i \<noteq> k) j (x # xs) = x # xs"
      using IH by auto
    then show ?thesis using outside by auto
  qed
qed

lemma Array_filter_remove:
  "Array_filter (\<lambda>_ i. i \<noteq> k) xs =
     (if 0 \<le> k \<and> k < int (length xs) then remove_at (nat k) xs else xs)"
  using filter_from_remove [of k 0 xs] by (simp add: Array_filter_def)

lemma length_remove_at: "i < length xs \<Longrightarrow> length (remove_at i xs) = length xs - 1"
  by (simp add: remove_at_def)

lemma nth_remove_at:
  "i < length xs \<Longrightarrow> j < length xs - 1 \<Longrightarrow>
     remove_at i xs ! j = (if j < i then xs ! j else xs ! Suc j)"
  by (auto simp: remove_at_def nth_append min_def)

text \<open>
  Claim C9.  \<open>removeFile\<close> with an index outside the collection (negative, or at least
  its length) returns the state it was given: nothing is removed, and the handler has no
  failing branch.  With an index inside the collection it removes the item at that index
  and nothing else: the collection is one shorter, the items before the index keep their
  index and the items after it move down by one.
\<close>

theorem removeFile_index:
  "(index < 0 \<or> int (length (evidenceFiles c)) \<le> index \<longrightarrow> removeFile index c = c) \<and>
   (0 \<le> index \<and> index < int (length (evidenceFiles c)) \<longrightarrow>
      removeFile index c = c\<lparr> evidenceFiles := remove_at (nat index) (evidenceFiles c) \<rparr> \<and>
      length (evidenceFiles (removeFile index c)) = length (evidenceFiles c) - 1 \<and>
      (\<forall>j < length (evidenceFiles c) - 1.
         evidenceFiles (removeFile index c) ! j =
           (if j < nat index then evidenceFiles c ! j else evidenceFiles c ! Suc j)))"
proof (intro conjI impI)
  assume "index < 0 \<or> int (length (evidenceFiles c)) \<le> index"
  then have "Array_filter (\<lambda>_ i. i \<noteq> index) (evidenceFiles c) = evidenceFiles c"
    unfolding Array_filter_remove by auto
  then show "removeFile index c = c"
    by (simp add: removeFile_def)
next
  assume a: "0 \<le> index \<and> index < int (length (evidenceFiles c))"
  then show r: "removeFile index c = c\<lparr> evidenceFiles := remove_at (nat index) (evidenceFiles c) \<rparr>"
    by (simp add: removeFile_def Array_filter_remove)
  from a have n: "nat index < length (evidenceFiles c)" by linarith
  show "length (evidenceFiles (removeFile index c)) = length (evidenceFiles c) - 1"
    using n by (simp add: r length_remove_at)
  show "\<forall>j < length (evidenceFiles c) - 1.
         evidenceFiles (removeFile index c) ! j =
           (if j < nat index then evidenceFiles c ! j else evidenceFiles c ! Suc j)"
    using n by (simp add: r nth_remove_at)
qed

text \<open>Three files attached; index 1 removes the second, indices 3 and -1 remove nothing.\<close>

theorem removeFile_index_witness:
  "evidenceFiles (removeFile 1 (initial\<lparr> evidenceFiles := [receipt_jpg, photo_png, clip_mp4] \<rparr>))
     = [receipt_jpg, clip_mp4] \<and>
   removeFile 3 (initial\<lparr> evidenceFiles := [receipt_jpg, photo_png, clip_mp4] \<rparr>)
     = initial\<lparr> evidenceFiles := [receipt_jpg, photo_png, clip_mp4] \<rparr> \<and>
   removeFile (- 1) (initial\<lparr> evidenceFiles := [receipt_jpg, photo_png, clip_mp4] \<rparr>)
     = initial\<lparr> evidenceFiles := [receipt_jpg, photo_png, clip_mp4] \<rparr>"
  using removeFile_index [of 1 "initial\<lparr> evidenceFiles := [receipt_jpg, photo_png, clip_mp4] \<rparr>"]
    removeFile_index [of 3 "initial\<lparr> evidenceFiles := [receipt_jpg, photo_png, clip_mp4] \<rparr>"]
    removeFile_index [of "- 1" "initial\<lparr> evidenceFiles := [receipt_jpg, photo_png, clip_mp4] \<rparr>"]
  by (simp add: remove_at_def)

subsection \<open>Recording\<close>

text \<open>
  Claim C10.  When no recorder exists (\<open>mediaRecorder\<close> is \<open>null\<close>, as it is until a
  recording has started), \<open>stopRecording\<close> does nothing: the state it returns is the state
  it was given, so no evidence item is appended, the chunk buffer and the recording flag
  are as before, and nothing is added to the trace.
\<close>

theorem stopRecording_without_recorder:
  "mediaRecorder c = None \<Longrightarrow> stopRecording c = c"
  by (simp add: stopRecording_def)

theorem stopRecording_without_recorder_witness:
  "mediaRecorder initial = None \<and> stopRecording initial = initial"
  using stopRecording_without_recorder [of initial] by (simp add: initial_def)

subsection \<open>Adding and removing evidence\<close>

lemma run_ops_snoc: "run_ops (ops @ [op]) c = apply_op op (run_ops ops c)"
  by (simp add: run_ops_def)

lemma run_ops_Cons: "run_ops (op # ops) c = run_ops ops (apply_op op c)"
  by (simp add: run_ops_def)

lemma ledger_of_snoc: "ledger_of (ops @ [op]) = ledger_step (ledger_of ops) op"
  by (simp add: ledger_of_def)

lemma added_snoc: "added (ops @ [op]) = added ops @ added_items op"
  by (simp add: added_def)

lemma in_range_removals_snoc:
  "in_range_removals (ops @ [op]) c =
     in_range_removals ops c +
       (case op of
          AddFiles _ \<Rightarrow> 0
        | RemoveEvidence index \<Rightarrow>
            if 0 \<le> index \<and> index < int (length (evidenceFiles (run_ops ops c))) then 1 else 0)"
proof (induction ops c rule: in_range_removals.induct)
  case (1 c)
  then show ?case by (cases op) (simp_all add: run_ops_def)
next
  case (2 files ops c)
  then show ?case by (cases op) (simp_all add: run_ops_Cons)
next
  case (3 index ops c)
  then show ?case by (cases op) (simp_all add: run_ops_Cons)
qed

lemma remove_at_map: "remove_at i (map f xs) = map f (remove_at i xs)"
  by (simp add: remove_at_def take_map drop_map)

text \<open>In a list without repetitions, dropping a position is dropping its element.\<close>

lemma remove_at_filter:
  "distinct xs \<Longrightarrow> i < length xs \<Longrightarrow> filter (\<lambda>k. k \<noteq> xs ! i) xs = remove_at i xs"
proof (induction xs arbitrary: i)
  case Nil
  then show ?case by simp
next
  case (Cons x xs)
  show ?case
  proof (cases i)
    case 0
    have "filter (\<lambda>k. k \<noteq> x) xs = xs"
      using Cons.prems(1) by (auto intro: filter_True)
    then show ?thesis using 0 by (simp add: remove_at_def)
  next
    case (Suc j)
    then have j: "j < length xs" using Cons.prems(2) by simp
    then have "xs ! j \<in> set xs" by simp
    then have "x \<noteq> xs ! j" using Cons.prems(1) by auto
    moreover have "filter (\<lambda>k. k \<noteq> xs ! j) xs = remove_at j xs"
      using Cons.IH [of j] Cons.prems(1) j by simp
    ultimately show ?thesis using Suc by (simp add: remove_at_def)
  qed
qed

lemma map_nth_append_new:
  "map (nth (xs @ ys)) [length xs ..< length xs + length ys] = ys"
proof -
  have "[length xs ..< length xs + length ys] = map (\<lambda>i. i + length xs) [0 ..< length ys]"
    by (simp add: map_add_upt add.commute)
  then have "map (nth (xs @ ys)) [length xs ..< length xs + length ys]
               = map (\<lambda>i. (xs @ ys) ! (i + length xs)) [0 ..< length ys]"
    by (simp add: comp_def)
  also have "\<dots> = map (nth ys) [0 ..< length ys]"
    by (simp add: nth_append)
  also have "\<dots> = ys"
    by (rule map_nth)
  finally show ?thesis .
qed

lemma map_nth_append_old:
  "\<forall>k \<in> set ks. k < length xs \<Longrightarrow> map (nth (xs @ ys)) ks = map (nth xs) ks"
  by (simp add: nth_append)

text \<open>The surviving positions after an addition of \<open>m\<close> items and after a removal.\<close>

lemma survivors_add:
  assumes S: "S = filter (\<lambda>k. k \<notin> set R) [0 ..< n]" and R: "set R \<subseteq> {..< n}"
  shows "S @ [n ..< n + m] = filter (\<lambda>k. k \<notin> set R) [0 ..< n + m]"
proof -
  have "filter (\<lambda>k. k \<notin> set R) [n ..< n + m] = [n ..< n + m]"
    using R by (intro filter_True) auto
  moreover have "[0 ..< n + m] = [0 ..< n] @ [n ..< n + m]"
    by (rule upt_add_eq_append) simp
  ultimately show ?thesis by (simp add: S)
qed

lemma survivors_remove:
  assumes S: "S = filter (\<lambda>k. k \<notin> set R) [0 ..< n]" and j: "j < length S"
  shows "remove_at j S = filter (\<lambda>k. k \<notin> set (R @ [S ! j])) [0 ..< n]"
    and "S ! j \<notin> set R" and "S ! j < n"
proof -
  have dS: "distinct S" by (simp add: S)
  have "S ! j \<in> set S" using j by simp
  then show "S ! j \<notin> set R" and "S ! j < n" by (auto simp: S)
  have "filter (\<lambda>k. k \<notin> set (R @ [S ! j])) [0 ..< n]
          = filter (\<lambda>k. k \<noteq> S ! j) (filter (\<lambda>k. k \<notin> set R) [0 ..< n])"
    by (simp add: conj_commute)
  also have "\<dots> = filter (\<lambda>k. k \<noteq> S ! j) S"
    by (simp only: S [symmetric])
  also have "\<dots> = remove_at j S"
    by (rule remove_at_filter [OF dS j])
  finally show "remove_at j S = filter (\<lambda>k. k \<notin> set (R @ [S ! j])) [0 ..< n]"
    by simp
qed

text \<open>
  The ledger and the collection move together.  After any operations on a collection that
  was empty, the collection holds the items of \<open>added\<close> at the surviving positions, the
  surviving positions are those never struck, in increasing order, and every removal
  inside the collection struck exactly one position.
\<close>

lemma ledger_invariant:
  assumes empty: "evidenceFiles c = []"
  shows "additions (ledger_of ops) = length (added ops) \<and>
         evidenceFiles (run_ops ops c) = map (nth (added ops)) (survivors (ledger_of ops)) \<and>
         survivors (ledger_of ops) =
           filter (\<lambda>k. k \<notin> set (removed (ledger_of ops))) [0 ..< length (added ops)] \<and>
         set (removed (ledger_of ops)) \<subseteq> {..< length (added ops)} \<and>
         distinct (removed (ledger_of ops)) \<and>
         length (survivors (ledger_of ops)) + length (removed (ledger_of ops)) = length (added ops) \<and>
         length (removed (ledger_of ops)) = in_range_removals ops c"
proof (induction ops rule: rev_induct)
  case Nil
  show ?case using empty by (simp add: run_ops_def ledger_of_def added_def)
next
  case (snoc op ops)
  define l where "l = ledger_of ops"
  define A where "A = added ops"
  define S where "S = survivors l"
  define R where "R = removed l"
  define E where "E = evidenceFiles (run_ops ops c)"
  from snoc have n: "additions l = length A" and E: "E = map (nth A) S"
    and S: "S = filter (\<lambda>k. k \<notin> set R) [0 ..< length A]"
    and R: "set R \<subseteq> {..< length A}" and dR: "distinct R"
    and len: "length S + length R = length A"
    and cnt: "length R = in_range_removals ops c"
    unfolding l_def A_def S_def R_def E_def by blast+
  have Sbound: "\<forall>k \<in> set S. k < length A" by (auto simp: S)
  have lenE: "length E = length S" by (simp add: E)
  show ?case
  proof (cases op)
    case (AddFiles files)
    have l': "ledger_of (ops @ [op]) =
        l\<lparr> survivors := S @ [length A ..< length A + length files],
           additions := length A + length files \<rparr>"
      by (simp add: ledger_of_snoc AddFiles l_def [symmetric] S_def n)
    have A': "added (ops @ [op]) = A @ files"
      by (simp add: added_snoc AddFiles A_def)
    have E': "evidenceFiles (run_ops (ops @ [op]) c) = E @ files"
      by (simp add: run_ops_snoc AddFiles handleFileChange_def E_def)
    have 1: "E @ files = map (nth (A @ files)) (S @ [length A ..< length A + length files])"
      using Sbound by (simp add: map_nth_append_new map_nth_append_old E)
    have 2: "S @ [length A ..< length A + length files]
               = filter (\<lambda>k. k \<notin> set R) [0 ..< length (A @ files)]"
      using survivors_add [OF S R] by simp
    have 3: "set R \<subseteq> {..< length (A @ files)}" using R by auto
    have 4: "in_range_removals (ops @ [op]) c = in_range_removals ops c"
      by (simp add: in_range_removals_snoc AddFiles)
    have 6: "length (S @ [length A ..< length A + length files]) + length R = length (A @ files)"
      using len by simp
    have "additions (ledger_of (ops @ [op])) = length (added (ops @ [op]))"
      by (simp add: l' A')
    moreover have "evidenceFiles (run_ops (ops @ [op]) c)
        = map (nth (added (ops @ [op]))) (survivors (ledger_of (ops @ [op])))"
      using 1 by (simp add: l' A' E')
    moreover have "survivors (ledger_of (ops @ [op])) =
           filter (\<lambda>k. k \<notin> set (removed (ledger_of (ops @ [op]))))
             [0 ..< length (added (ops @ [op]))]"
      using 2 by (simp add: l' A' R_def)
    moreover have "set (removed (ledger_of (ops @ [op]))) \<subseteq> {..< length (added (ops @ [op]))}"
      using 3 by (simp add: l' A' R_def)
    moreover have "distinct (removed (ledger_of (ops @ [op])))"
      using dR by (simp add: l' R_def)
    moreover have "length (survivors (ledger_of (ops @ [op])))
        + length (removed (ledger_of (ops @ [op]))) = length (added (ops @ [op]))"
      using 6 by (simp add: l' A' R_def)
    moreover have "length (removed (ledger_of (ops @ [op]))) = in_range_removals (ops @ [op]) c"
      using cnt by (simp add: l' 4 R_def)
    ultimately show ?thesis by blast
  next
    case (RemoveEvidence index)
    have A': "added (ops @ [op]) = A"
      by (simp add: added_snoc RemoveEvidence A_def)
    show ?thesis
    proof (cases "0 \<le> index \<and> index < int (length S)")
      case False
      have l': "ledger_of (ops @ [op]) = ledger_of ops"
        using False by (auto simp: ledger_of_snoc RemoveEvidence l_def [symmetric] S_def)
      have "Array_filter (\<lambda>_ i. i \<noteq> index) E = E"
        using False lenE unfolding Array_filter_remove by auto
      then have E': "evidenceFiles (run_ops (ops @ [op]) c) = evidenceFiles (run_ops ops c)"
        by (simp add: run_ops_snoc RemoveEvidence removeFile_def E_def [symmetric])
      have 4: "in_range_removals (ops @ [op]) c = in_range_removals ops c"
        using False lenE by (auto simp: in_range_removals_snoc RemoveEvidence E_def [symmetric])
      have A'': "added (ops @ [op]) = added ops" by (simp add: A' A_def)
      show ?thesis
        unfolding l' A'' E' 4 by (rule snoc)
    next
      case True
      define j where "j = nat index"
      from True have j: "j < length S" unfolding j_def by linarith
      have l': "ledger_of (ops @ [op]) =
          l\<lparr> survivors := remove_at j S, removed := R @ [S ! j] \<rparr>"
        using True
        by (simp add: ledger_of_snoc RemoveEvidence l_def [symmetric] S_def R_def j_def)
      have "Array_filter (\<lambda>_ i. i \<noteq> index) E = remove_at j E"
        using True lenE unfolding Array_filter_remove j_def by simp
      then have E': "evidenceFiles (run_ops (ops @ [op]) c) = remove_at j E"
        by (simp add: run_ops_snoc RemoveEvidence removeFile_def E_def [symmetric])
      have 4: "in_range_removals (ops @ [op]) c = Suc (in_range_removals ops c)"
        using True lenE by (simp add: in_range_removals_snoc RemoveEvidence E_def [symmetric])
      note rm = survivors_remove [OF S j]
      have 1: "remove_at j E = map (nth A) (remove_at j S)"
        by (simp add: E remove_at_map)
      have 3: "set (R @ [S ! j]) \<subseteq> {..< length A}" using R rm(3) by auto
      have 5: "distinct (R @ [S ! j])" using dR rm(2) by simp
      have 6: "length (remove_at j S) + length (R @ [S ! j]) = length A"
        using len j by (simp add: length_remove_at)
      have "additions (ledger_of (ops @ [op])) = length (added (ops @ [op]))"
        using n by (simp add: l' A')
      moreover have "evidenceFiles (run_ops (ops @ [op]) c)
          = map (nth (added (ops @ [op]))) (survivors (ledger_of (ops @ [op])))"
        using 1 by (simp add: l' A' E')
      moreover have "survivors (ledger_of (ops @ [op])) =
             filter (\<lambda>k. k \<notin> set (removed (ledger_of (ops @ [op]))))
               [0 ..< length (added (ops @ [op]))]"
        using rm(1) by (simp add: l' A')
      moreover have "set (removed (ledger_of (ops @ [op]))) \<subseteq> {..< length (added (ops @ [op]))}"
        using 3 by (simp add: l' A')
      moreover have "distinct (removed (ledger_of (ops @ [op])))"
        using 5 by (simp add: l')
      moreover have "length (survivors (ledger_of (ops @ [op])))
          + length (removed (ledger_of (ops @ [op]))) = length (added (ops @ [op]))"
        using 6 by (simp add: l' A')
      moreover have "length (removed (ledger_of (ops @ [op]))) = in_range_removals (ops @ [op]) c"
        using cnt by (simp add: l' 4)
      ultimately show ?thesis by blast
    qed
  qed
qed

text \<open>
  Claim C6.  Start from an empty evidence collection and apply any sequence of
  \<open>handleFileChange\<close> and \<open>removeFile\<close> calls.  The collection is then the sequence of
  all added items, in the order of addition, without the positions that were removed;
  and its length is the number of added items minus the number of removals whose index
  was inside the collection when they were called (each of these struck one position,
  no position twice).
\<close>

theorem evidence_after_ops:
  assumes "evidenceFiles c = []"
  shows "evidenceFiles (run_ops ops c) =
           map (nth (added ops))
             (filter (\<lambda>k. k \<notin> set (removed (ledger_of ops))) [0 ..< length (added ops)]) \<and>
         length (evidenceFiles (run_ops ops c)) + in_range_removals ops c = length (added ops) \<and>
         length (evidenceFiles (run_ops ops c)) = length (added ops) - in_range_removals ops c \<and>
         length (removed (ledger_of ops)) = in_range_removals ops c \<and>
         distinct (removed (ledger_of ops)) \<and>
         set (removed (ledger_of ops)) \<subseteq> {..< length (added ops)}"
proof -
  note inv = ledger_invariant [OF assms, of ops]
  from inv have e: "evidenceFiles (run_ops ops c) = map (nth (added ops)) (survivors (ledger_of ops))"
    and s: "survivors (ledger_of ops) =
           filter (\<lambda>k. k \<notin> set (removed (ledger_of ops))) [0 ..< length (added ops)]"
    and len: "length (survivors (ledger_of ops)) + length (removed (ledger_of ops)) = length (added ops)"
    and cnt: "length (removed (ledger_of ops)) = in_range_removals ops c"
    and d: "distinct (removed (ledger_of ops))"
    and r: "set (removed (ledger_of ops)) \<subseteq> {..< length (added ops)}"
    by blast+
  have 1: "evidenceFiles (run_ops ops c) =
           map (nth (added ops))
             (filter (\<lambda>k. k \<notin> set (removed (ledger_of ops))) [0 ..< length (added ops)])"
    using e s by simp
  have "length (evidenceFiles (run_ops ops c)) = length (survivors (ledger_of ops))"
    by (simp add: e)
  then have 2: "length (evidenceFiles (run_ops ops c)) + in_range_removals ops c = length (added ops)"
    using len cnt by simp
  then have 3: "length (evidenceFiles (run_ops ops c)) = length (added ops) - in_range_removals ops c"
    by simp
  from 1 2 3 cnt d r show ?thesis by blast
qed

text \<open>The sample operations: three items added, the first and the third removed, one
  removal outside the collection; the second item is what remains.\<close>

lemma sample_ops_run: "evidenceFiles (run_ops sample_ops initial) = [photo_png]"
  by (simp add: sample_ops_def run_ops_def handleFileChange_def removeFile_def Array_filter_def
      initial_def)

lemma sample_ops_added: "added sample_ops = [receipt_jpg, photo_png, clip_mp4]"
  by (simp add: sample_ops_def added_def)

lemma sample_ops_removed: "removed (ledger_of sample_ops) = [0, 2]"
  by (simp add: sample_ops_def ledger_of_def remove_at_def)

lemma sample_ops_count: "in_range_removals sample_ops initial = 2"
  by (simp add: sample_ops_def handleFileChange_def removeFile_def Array_filter_def initial_def)

theorem evidence_after_ops_witness:
  "evidenceFiles initial = [] \<and>
   evidenceFiles (run_ops sample_ops initial) =
     map (nth (added sample_ops))
       (filter (\<lambda>k. k \<notin> set (removed (ledger_of sample_ops))) [0 ..< length (added sample_ops)]) \<and>
   evidenceFiles (run_ops sample_ops initial) = [photo_png] \<and>
   added sample_ops = [receipt_jpg, photo_png, clip_mp4] \<and>
   removed (ledger_of sample_ops) = [0, 2] \<and>
   in_range_removals sample_ops initial = 2 \<and>
   length (evidenceFiles (run_ops sample_ops initial))
     = length (added sample_ops) - in_range_removals sample_ops initial"
proof -
  have h: "evidenceFiles initial = []" by (simp add: initial_def)
  from evidence_after_ops [OF h, of sample_ops] h
    sample_ops_run sample_ops_added sample_ops_removed sample_ops_count
  show ?thesis by blast
qed

subsection \<open>Recording sessions\<close>

text \<open>Delivering chunks appends the non-empty ones to the buffer, in the order of arrival,
  and touches nothing else.\<close>

lemma deliver_chunks:
  "deliver ds c = c\<lparr> audioChunks := audioChunks c @ filter (\<lambda>d. 0 < size_Blob d) ds \<rparr>"
proof (induction ds arbitrary: c)
  case Nil
  then show ?case by (simp add: deliver_def)
next
  case (Cons d ds)
  have "deliver (d # ds) c = deliver ds (ondataavailable d c)"
    by (simp add: deliver_def)
  then show ?case
    by (simp add: Cons.IH ondataavailable_def)
qed

text \<open>The chunks the handler drops are empty: the bytes are those of all chunks.\<close>

lemma concat_payload_nonempty:
  "concat (map payload (filter (\<lambda>d. 0 < size_Blob d) ds)) = concat (map payload ds)"
  by (induction ds) (simp_all add: size_Blob_def)

text \<open>
  A whole session, from any state: one file is appended, holding the bytes of the buffer
  as it was when the recorder started followed by the bytes of the session's chunks in
  the order of arrival; the buffer is empty and the flag is down afterwards.
\<close>

lemma recording_session_result:
  "recording_session r ds c =
     c\<lparr> mediaRecorder := Some r,
        isRecording := False,
        evidenceFiles := evidenceFiles c @
          [\<lparr> payload = concat (map payload (audioChunks c @ ds)), mime = ''audio/webm'',
             name = ''audio-evidence.webm'' \<rparr>],
        audioChunks := [],
        trace := trace c @ [Recorder_start r, Recorder_stop r] \<rparr>"
  by (simp add: recording_session_def deliver_chunks startRecording_def stopRecording_def
      emit_def new_Blob_def new_File_def concat_payload_nonempty)

text \<open>When the buffer is empty at the start, as in the first session, the file holds the
  session's chunks and nothing else.\<close>

lemma recording_session_fresh:
  "audioChunks c = [] \<Longrightarrow>
     evidenceFiles (recording_session r ds c) =
       evidenceFiles c @
         [\<lparr> payload = concat (map payload ds), mime = ''audio/webm'',
            name = ''audio-evidence.webm'' \<rparr>] \<and>
     audioChunks (recording_session r ds c) = [] \<and>
     \<not> isRecording (recording_session r ds c)"
  by (simp add: recording_session_result)

text \<open>Three chunks, from the initial state: one file with their bytes in order.\<close>

lemma three_chunks_in_order:
  "evidenceFiles (recording_session (MediaRecorder 1) [chunk_a, chunk_b, chunk_c] initial)
     = [\<lparr> payload = [1, 2, 3, 4, 5, 6], mime = ''audio/webm'', name = ''audio-evidence.webm'' \<rparr>] \<and>
   audioChunks (recording_session (MediaRecorder 1) [chunk_a, chunk_b, chunk_c] initial) = [] \<and>
   \<not> isRecording (recording_session (MediaRecorder 1) [chunk_a, chunk_b, chunk_c] initial)"
  by (simp add: recording_session_result initial_def chunk_a_def chunk_b_def chunk_c_def)

text \<open>
  Claim C4 says that every recording session appends one evidence item whose bytes are
  the chunks of that session, in order.  \<open>startRecording\<close> does not empty the buffer;
  only \<open>stopRecording\<close> does, and the handler \<open>ondataavailable\<close> stays attached to a
  recorder that has been stopped.  A chunk that the recorder delivers after
  \<open>stopRecording\<close> has run is therefore kept and opens the next recording.  Here a
  first session receives nothing before it is stopped, its recorder then delivers
  \<open>chunk_a\<close>, and a second session receives \<open>chunk_b\<close>: the second file holds the bytes
  of \<open>chunk_a\<close> followed by those of \<open>chunk_b\<close>, not the bytes of \<open>chunk_b\<close> alone.
\<close>

theorem late_chunk_joins_next_recording:
  "evidenceFiles
     (recording_session (MediaRecorder 2) [chunk_b]
        (ondataavailable chunk_a (recording_session (MediaRecorder 1) [] initial)))
   = [\<lparr> payload = [], mime = ''audio/webm'', name = ''audio-evidence.webm'' \<rparr>,
      \<lparr> payload = payload chunk_a @ payload chunk_b, mime = ''audio/webm'',
        name = ''audio-evidence.webm'' \<rparr>] \<and>
   payload chunk_a @ payload chunk_b \<noteq> concat (map payload [chunk_b])"
  by (simp add: recording_session_result ondataavailable_def size_Blob_def initial_def
      chunk_a_def chunk_b_def)

subsection \<open>Submission: the six ways it can go\<close>

text \<open>
  \<open>submitCrimeReport\<close> changes nothing but the trace.  What it appends depends on
  whether the location is there, whether there is evidence, and on what the two
  endpoints answer.
\<close>

lemma submit_no_location:
  "location c = None \<Longrightarrow>
     submitCrimeReport be d c =
       (Inl (Error ''Location is required''),
        c\<lparr> trace := trace c @ [Toast_error ''Failed to submit crime report''] \<rparr>)"
  by (simp add: submitCrimeReport_def submit_mutationFn_def onError_def emit_def
      error_message_def)

lemma submit_upload_failed:
  "location c = Some loc \<Longrightarrow> evidenceFiles c \<noteq> [] \<Longrightarrow>
   upload_evidence be (evidenceFiles c) = Inl e \<Longrightarrow>
     submitCrimeReport be d c =
       (Inl e, c\<lparr> trace := trace c @
          [Post_upload_evidence (evidenceFiles c), Toast_error (error_message e)] \<rparr>)"
  by (simp add: submitCrimeReport_def submit_mutationFn_def uploadEvidenceMutation_def
      onError_def emit_def)

lemma submit_upload_ok_rejected:
  "location c = Some loc \<Longrightarrow> evidenceFiles c \<noteq> [] \<Longrightarrow>
   upload_evidence be (evidenceFiles c) = Inr urls \<Longrightarrow>
   tickets be (make_reportData d loc urls) = Inl e \<Longrightarrow>
     submitCrimeReport be d c =
       (Inl e, c\<lparr> trace := trace c @
          [Post_upload_evidence (evidenceFiles c), Post_tickets (make_reportData d loc urls),
           Toast_error (error_message e)] \<rparr>)"
  by (simp add: submitCrimeReport_def submit_mutationFn_def uploadEvidenceMutation_def
      onError_def emit_def)

lemma submit_upload_ok_accepted:
  "location c = Some loc \<Longrightarrow> evidenceFiles c \<noteq> [] \<Longrightarrow>
   upload_evidence be (evidenceFiles c) = Inr urls \<Longrightarrow>
   tickets be (make_reportData d loc urls) = Inr t \<Longrightarrow>
     submitCrimeReport be d c =
       (Inr t, c\<lparr> trace := trace c @
          [Post_upload_evidence (evidenceFiles c), Post_tickets (make_reportData d loc urls),
           Toast_success ''Crime report submitted successfully'', OnSubmit] \<rparr>)"
  by (simp add: submitCrimeReport_def submit_mutationFn_def uploadEvidenceMutation_def
      onSuccess_def emit_def)

lemma submit_bare_rejected:
  "location c = Some loc \<Longrightarrow> evidenceFiles c = [] \<Longrightarrow>
   tickets be (make_reportData d loc []) = Inl e \<Longrightarrow>
     submitCrimeReport be d c =
       (Inl e, c\<lparr> trace := trace c @
          [Post_tickets (make_reportData d loc []), Toast_error (error_message e)] \<rparr>)"
  by (simp add: submitCrimeReport_def submit_mutationFn_def onError_def emit_def)

lemma submit_bare_accepted:
  "location c = Some loc \<Longrightarrow> evidenceFiles c = [] \<Longrightarrow>
   tickets be (make_reportData d loc []) = Inr t \<Longrightarrow>
     submitCrimeReport be d c =
       (Inr t, c\<lparr> trace := trace c @
          [Post_tickets (make_reportData d loc []),
           Toast_success ''Crime report submitted successfully'', OnSubmit] \<rparr>)"
  by (simp add: submitCrimeReport_def submit_mutationFn_def onSuccess_def emit_def)

text \<open>Every run is one of the six.\<close>

lemma submit_paths [case_names no_location upload_failed upload_ok_rejected upload_ok_accepted
    bare_rejected bare_accepted]:
  obtains
    "location c = None"
    "submitCrimeReport be d c =
       (Inl (Error ''Location is required''),
        c\<lparr> trace := trace c @ [Toast_error ''Failed to submit crime report''] \<rparr>)"
  | loc e where
    "location c = Some loc" "evidenceFiles c \<noteq> []"
    "upload_evidence be (evidenceFiles c) = Inl e"
    "submitCrimeReport be d c =
       (Inl e, c\<lparr> trace := trace c @
          [Post_upload_evidence (evidenceFiles c), Toast_error (error_message e)] \<rparr>)"
  | loc urls e where
    "location c = Some loc" "evidenceFiles c \<noteq> []"
    "upload_evidence be (evidenceFiles c) = Inr urls"
    "tickets be (make_reportData d loc urls) = Inl e"
    "submitCrimeReport be d c =
       (Inl e, c\<lparr> trace := trace c @
          [Post_upload_evidence (evidenceFiles c), Post_tickets (make_reportData d loc urls),
           Toast_error (error_message e)] \<rparr>)"
  | loc urls t where
    "location c = Some loc" "evidenceFiles c \<noteq> []"
    "upload_evidence be (evidenceFiles c) = Inr urls"
    "tickets be (make_reportData d loc urls) = Inr t"
    "submitCrimeReport be d c =
       (Inr t, c\<lparr> trace := trace c @
          [Post_upload_evidence (evidenceFiles c), Post_tickets (make_reportData d loc urls),
           Toast_success ''Crime report submitted successfully'', OnSubmit] \<rparr>)"
  | loc e where
    "location c = Some loc" "evidenceFiles c = []"
    "tickets be (make_reportData d loc []) = Inl e"
    "submitCrimeReport be d c =
       (Inl e, c\<lparr> trace := trace c @
          [Post_tickets (make_reportData d loc []), Toast_error (error_message e)] \<rparr>)"
  | loc t where
    "location c = Some loc" "evidenceFiles c = []"
    "tickets be (make_reportData d loc []) = Inr t"
    "submitCrimeReport be d c =
       (Inr t, c\<lparr> trace := trace c @
          [Post_tickets (make_reportData d loc []),
           Toast_success ''Crime report submitted successfully'', OnSubmit] \<rparr>)"
proof (cases "location c")
  case None
  then show ?thesis using that(1) submit_no_location by blast
next
  case (Some loc)
  show ?thesis
  proof (cases "evidenceFiles c = []")
    case True
    show ?thesis
    proof (cases "tickets be (make_reportData d loc [])")
      case (Inl e)
      then show ?thesis using that(5) Some True submit_bare_rejected by blast
    next
      case (Inr t)
      then show ?thesis using that(6) Some True submit_bare_accepted by blast
    qed
  next
    case False
    show ?thesis
    proof (cases "upload_evidence be (evidenceFiles c)")
      case (Inl e)
      then show ?thesis using that(2) Some False submit_upload_failed by blast
    next
      case (Inr urls)
      show ?thesis
      proof (cases "tickets be (make_reportData d loc urls)")
        case (Inl e)
        then show ?thesis using that(3) Some False Inr submit_upload_ok_rejected by blast
      next
        case Inr2: (Inr t)
        then show ?thesis using that(4) Some False Inr submit_upload_ok_accepted by blast
      qed
    qed
  qed
qed

lemma emitted_update: "emitted c (c\<lparr> trace := trace c @ es \<rparr>) = es"
  by (simp add: emitted_def)

lemma submit_trace_extends:
  "snd (submitCrimeReport be d c)
     = c\<lparr> trace := trace c @ emitted c (snd (submitCrimeReport be d c)) \<rparr>"
  by (cases rule: submit_paths [of c be d]) (simp_all add: emitted_update)

text \<open>A report that was sent was built from the resolved location and from the upload's
  answer (or from no URLs when there was nothing to upload).\<close>

lemma tickets_call_payload:
  assumes "Post_tickets rd \<in> set (emitted c (snd (submitCrimeReport be d c)))"
  shows "\<exists>loc urls. location c = Some loc \<and> rd = make_reportData d loc urls \<and>
           (if evidenceFiles c = [] then urls = []
            else upload_evidence be (evidenceFiles c) = Inr urls)"
  using assms by (cases rule: submit_paths [of c be d]) (auto simp: emitted_update)

text \<open>The sample runs: the location resolved to Lagos, \<open>receipt.jpg\<close> attached.\<close>

lemma ready_fields:
  "location ready = Some lagos" "evidenceFiles ready = [receipt_jpg]" "audioChunks ready = []"
  by (simp_all add: ready_def lagos_def getCurrentLocation_def handleFileChange_def emit_def
      initial_def)

lemma ready_recording_fields:
  "location ready_recording = Some lagos" "evidenceFiles ready_recording = [receipt_jpg]"
  "audioChunks ready_recording = [chunk_a]" "isRecording ready_recording"
  by (simp_all add: ready_recording_def deliver_chunks startRecording_def emit_def ready_fields
      size_Blob_def chunk_a_def)

lemma accepting_upload:
  "upload_evidence accepting [receipt_jpg] = Inr [''/evidence/receipt.jpg'']"
  by (simp add: accepting_def receipt_jpg_def)

lemma end_to_end:
  "submitCrimeReport accepting fraud_report ready =
     (Inr ''T-1'',
      ready\<lparr> trace := trace ready @
        [Post_upload_evidence [receipt_jpg],
         Post_tickets (make_reportData fraud_report lagos [''/evidence/receipt.jpg'']),
         Toast_success ''Crime report submitted successfully'', OnSubmit] \<rparr>)"
  using submit_upload_ok_accepted [of ready lagos accepting "[''/evidence/receipt.jpg'']"
      fraud_report "''T-1''"]
  by (simp add: ready_fields accepting_upload) (simp add: accepting_def)

lemma end_to_end_recording:
  "submitCrimeReport accepting fraud_report ready_recording =
     (Inr ''T-1'',
      ready_recording\<lparr> trace := trace ready_recording @
        [Post_upload_evidence [receipt_jpg],
         Post_tickets (make_reportData fraud_report lagos [''/evidence/receipt.jpg'']),
         Toast_success ''Crime report submitted successfully'', OnSubmit] \<rparr>)"
  using submit_upload_ok_accepted [of ready_recording lagos accepting "[''/evidence/receipt.jpg'']"
      fraud_report "''T-1''"]
  by (simp add: ready_recording_fields accepting_upload) (simp add: accepting_def)

lemma upload_down_run:
  "submitCrimeReport upload_down fraud_report ready =
     (Inl (AxiosError (Some ''Upload failed'')),
      ready\<lparr> trace := trace ready @
        [Post_upload_evidence [receipt_jpg], Toast_error ''Upload failed''] \<rparr>)"
  using submit_upload_failed [of ready lagos upload_down "AxiosError (Some ''Upload failed'')"
      fraud_report]
  by (simp add: ready_fields error_message_def) (simp add: upload_down_def)

subsection \<open>Submission: the claims\<close>

text \<open>
  Claim C1.  When \<open>submitCrimeReport\<close> runs with a non-empty evidence collection, a
  request to the ticket endpoint is made only if the upload answered with success, and
  then the upload request stands before it in the trace; when the upload fails, no
  request to the ticket endpoint is made.
\<close>

theorem creation_only_after_upload:
  assumes "evidenceFiles c \<noteq> []"
  shows "(\<forall>i < length (emitted c (snd (submitCrimeReport be d c))).
            is_tickets_call (emitted c (snd (submitCrimeReport be d c)) ! i) \<longrightarrow>
              (\<exists>urls. upload_evidence be (evidenceFiles c) = Inr urls) \<and>
              (\<exists>j < i. emitted c (snd (submitCrimeReport be d c)) ! j
                          = Post_upload_evidence (evidenceFiles c))) \<and>
         ((\<exists>e. upload_evidence be (evidenceFiles c) = Inl e) \<longrightarrow>
            filter is_tickets_call (emitted c (snd (submitCrimeReport be d c))) = [])"
  using assms
  by (cases rule: submit_paths [of c be d]) (auto simp: emitted_update nth_Cons' split: if_splits)

theorem creation_only_after_upload_witness:
  "evidenceFiles ready \<noteq> [] \<and>
   emitted ready (snd (submitCrimeReport accepting fraud_report ready)) =
     [Post_upload_evidence [receipt_jpg],
      Post_tickets (make_reportData fraud_report lagos [''/evidence/receipt.jpg'']),
      Toast_success ''Crime report submitted successfully'', OnSubmit] \<and>
   upload_evidence accepting (evidenceFiles ready) = Inr [''/evidence/receipt.jpg''] \<and>
   upload_evidence upload_down (evidenceFiles ready) = Inl (AxiosError (Some ''Upload failed'')) \<and>
   filter is_tickets_call (emitted ready (snd (submitCrimeReport upload_down fraud_report ready))) = []"
  using creation_only_after_upload [of ready accepting fraud_report]
    creation_only_after_upload [of ready upload_down fraud_report]
  by (simp add: end_to_end upload_down_run emitted_update ready_fields accepting_upload)
     (simp add: upload_down_def)

text \<open>
  Claim C2.  With no resolved location, \<open>submitCrimeReport\<close> fails with the error
  ``Location is required'' (the spec's \<open>MissingLocationError\<close>), whatever the form
  fields are; it makes no network call, neither the upload nor the ticket request, and
  the failure reaches the user as an error notification.
\<close>

theorem submit_without_location:
  "location c = None \<Longrightarrow>
     fst (submitCrimeReport be d c) = Inl (Error ''Location is required'') \<and>
     filter is_network_call (emitted c (snd (submitCrimeReport be d c))) = [] \<and>
     snd (submitCrimeReport be d c) = emit (Toast_error ''Failed to submit crime report'') c"
  by (simp add: submit_no_location emitted_update emit_def)

theorem submit_without_location_witness:
  "location initial = None \<and>
   fst (submitCrimeReport accepting fraud_report initial) = Inl (Error ''Location is required'') \<and>
   filter is_network_call (emitted initial (snd (submitCrimeReport accepting fraud_report initial))) = []"
  using submit_without_location [of initial accepting fraud_report]
  by (simp add: initial_def emitted_def emit_def)

text \<open>
  Claim C3.  When the upload succeeds during \<open>submitCrimeReport\<close>, exactly one ticket
  request is made and the \<open>evidenceUrls\<close> of its payload is the list the upload
  returned, the same URLs in the same order.
\<close>

theorem upload_urls_in_report:
  assumes "location c = Some loc" and "evidenceFiles c \<noteq> []"
    and "upload_evidence be (evidenceFiles c) = Inr urls"
  shows "\<exists>rd. filter is_tickets_call (emitted c (snd (submitCrimeReport be d c))) = [Post_tickets rd]
           \<and> evidenceUrls (rd_crimeDetails rd) = urls"
  using assms
  by (cases rule: submit_paths [of c be d]) (auto simp: emitted_update make_reportData_def)

theorem upload_urls_in_report_witness:
  "location ready = Some lagos \<and> evidenceFiles ready \<noteq> [] \<and>
   upload_evidence accepting (evidenceFiles ready) = Inr [''/evidence/receipt.jpg''] \<and>
   (\<exists>rd. filter is_tickets_call (emitted ready (snd (submitCrimeReport accepting fraud_report ready)))
            = [Post_tickets rd] \<and>
         evidenceUrls (rd_crimeDetails rd) = [''/evidence/receipt.jpg''])"
  using upload_urls_in_report [of ready lagos accepting "[''/evidence/receipt.jpg'']" fraud_report]
  by (simp add: ready_fields accepting_upload)

text \<open>
  Claim C5 says that a successful submission clears the form, the evidence collection
  and the chunk buffer.  \<open>onSuccess\<close> only notifies and calls \<open>onSubmit\<close>: after the
  sample submission, made while a recording is running, the attached file and the
  buffered chunk are still there.
\<close>

theorem success_leaves_state_counterexample:
  "fst (submitCrimeReport accepting fraud_report ready_recording) = Inr ''T-1'' \<and>
   evidenceFiles (snd (submitCrimeReport accepting fraud_report ready_recording)) = [receipt_jpg] \<and>
   audioChunks (snd (submitCrimeReport accepting fraud_report ready_recording)) = [chunk_a]"
  by (simp add: end_to_end_recording ready_recording_fields)

text \<open>
  Claim C5, amended.  On every successful submission \<open>submitCrimeReport\<close> shows the
  success notification and then signals the caller, once, through \<open>onSubmit\<close>, which is
  the last thing it does; the composer's state is as before but for the trace: the
  evidence collection and the chunk buffer are unchanged.
\<close>

theorem success_signals_caller:
  assumes "fst (submitCrimeReport be d c) = Inr t"
  shows "last (emitted c (snd (submitCrimeReport be d c))) = OnSubmit \<and>
         filter (\<lambda>e. e = OnSubmit) (emitted c (snd (submitCrimeReport be d c))) = [OnSubmit] \<and>
         Toast_success ''Crime report submitted successfully''
           \<in> set (emitted c (snd (submitCrimeReport be d c))) \<and>
         snd (submitCrimeReport be d c)
           = c\<lparr> trace := trace c @ emitted c (snd (submitCrimeReport be d c)) \<rparr> \<and>
         evidenceFiles (snd (submitCrimeReport be d c)) = evidenceFiles c \<and>
         audioChunks (snd (submitCrimeReport be d c)) = audioChunks c"
  using assms
  by (cases rule: submit_paths [of c be d]) (simp_all add: emitted_update)

theorem success_signals_caller_witness:
  "fst (submitCrimeReport accepting fraud_report ready_recording) = Inr ''T-1'' \<and>
   last (emitted ready_recording (snd (submitCrimeReport accepting fraud_report ready_recording)))
     = OnSubmit \<and>
   evidenceFiles (snd (submitCrimeReport accepting fraud_report ready_recording))
     = evidenceFiles ready_recording \<and>
   audioChunks (snd (submitCrimeReport accepting fraud_report ready_recording))
     = audioChunks ready_recording"
proof -
  have h: "fst (submitCrimeReport accepting fraud_report ready_recording) = Inr ''T-1''"
    by (simp add: end_to_end_recording)
  from success_signals_caller [OF h] h show ?thesis by blast
qed

text \<open>
  Claim C7.  When the upload fails during \<open>submitCrimeReport\<close>, the evidence
  collection afterwards is the one before the attempt, item for item, no ticket request
  is made, and the submission ends in an error; with a resolved location the error is
  the upload's and the user is notified of it.
\<close>

theorem upload_failure_keeps_evidence:
  assumes "evidenceFiles c \<noteq> []" and "upload_evidence be (evidenceFiles c) = Inl e"
  shows "evidenceFiles (snd (submitCrimeReport be d c)) = evidenceFiles c \<and>
         filter is_tickets_call (emitted c (snd (submitCrimeReport be d c))) = [] \<and>
         isl (fst (submitCrimeReport be d c)) \<and>
         (location c \<noteq> None \<longrightarrow>
            fst (submitCrimeReport be d c) = Inl e \<and>
            emitted c (snd (submitCrimeReport be d c)) =
              [Post_upload_evidence (evidenceFiles c), Toast_error (error_message e)])"
  using assms
  by (cases rule: submit_paths [of c be d]) (auto simp: emitted_update)

theorem upload_failure_keeps_evidence_witness:
  "evidenceFiles ready \<noteq> [] \<and>
   upload_evidence upload_down (evidenceFiles ready) = Inl (AxiosError (Some ''Upload failed'')) \<and>
   evidenceFiles (snd (submitCrimeReport upload_down fraud_report ready)) = [receipt_jpg] \<and>
   filter is_tickets_call (emitted ready (snd (submitCrimeReport upload_down fraud_report ready))) = [] \<and>
   fst (submitCrimeReport upload_down fraud_report ready) = Inl (AxiosError (Some ''Upload failed''))"
  using upload_failure_keeps_evidence [of ready upload_down "AxiosError (Some ''Upload failed'')"
      fraud_report]
  by (simp add: ready_fields upload_down_def)

text \<open>
  Claim C8.  Every report sent to the ticket endpoint has type \<open>LIVE_CRIME\<close>, the
  subject ``Live Crime Report: '' followed by the selected category, and priority
  \<open>HIGH\<close> whatever the form fields are; its \<open>crimeDetails\<close> hold the category, the
  in-progress flag, the resolved location and the evidence URLs (none when nothing was
  attached, the upload's answer otherwise).
\<close>

theorem report_payload:
  assumes "Post_tickets rd \<in> set (emitted c (snd (submitCrimeReport be d c)))"
  shows "rd_type rd = ''LIVE_CRIME'' \<and>
         subject rd = ''Live Crime Report: '' @ crime_type_string (crimeType d) \<and>
         rd_description rd = description d \<and>
         priority rd = ''HIGH'' \<and>
         crimeType (rd_crimeDetails rd) = crimeType d \<and>
         inProgress (rd_crimeDetails rd) = inProgress d \<and>
         location c = Some (cd_location (rd_crimeDetails rd)) \<and>
         (if evidenceFiles c = [] then evidenceUrls (rd_crimeDetails rd) = []
          else upload_evidence be (evidenceFiles c) = Inr (evidenceUrls (rd_crimeDetails rd)))"
proof -
  from tickets_call_payload [OF assms] obtain loc urls where
    l: "location c = Some loc" and r: "rd = make_reportData d loc urls" and
    u: "if evidenceFiles c = [] then urls = [] else upload_evidence be (evidenceFiles c) = Inr urls"
    by blast
  have "evidenceUrls (rd_crimeDetails rd) = urls" "cd_location (rd_crimeDetails rd) = loc"
    by (simp_all add: r make_reportData_def)
  with l u show ?thesis by (simp add: r make_reportData_def)
qed

theorem report_payload_witness:
  "Post_tickets (make_reportData fraud_report lagos [''/evidence/receipt.jpg''])
     \<in> set (emitted ready (snd (submitCrimeReport accepting fraud_report ready))) \<and>
   rd_type (make_reportData fraud_report lagos [''/evidence/receipt.jpg'']) = ''LIVE_CRIME'' \<and>
   subject (make_reportData fraud_report lagos [''/evidence/receipt.jpg''])
     = ''Live Crime Report: FRAUD'' \<and>
   priority (make_reportData fraud_report lagos [''/evidence/receipt.jpg'']) = ''HIGH'' \<and>
   cd_location (rd_crimeDetails (make_reportData fraud_report lagos [''/evidence/receipt.jpg'']))
     = lagos \<and>
   evidenceUrls (rd_crimeDetails (make_reportData fraud_report lagos [''/evidence/receipt.jpg'']))
     = [''/evidence/receipt.jpg'']"
  using report_payload [of "make_reportData fraud_report lagos [''/evidence/receipt.jpg'']"
      ready accepting fraud_report]
  by (simp add: end_to_end emitted_update) (simp add: make_reportData_def fraud_report_def)

end
